theory Spec2Isabelle
  imports Main
begin

section \<open>The video call component (src/components/VideoCall.tsx)\<close>

text \<open>
  The component drives an external real-time transport client. The model keeps the
  component's React state in a record, writes every call the component makes on its
  collaborators (transport client, track factory, toast, console, the caller's
  \<open>onLeave\<close>) into a trace in the order the source makes them, and takes what the
  collaborators answer (the client's connection state, which calls throw, how a promise
  settles) from the environment. Rendering is left out: the JSX, the effect that plays
  the local video track into its element, and the body of the timer callback that plays
  a remote video track.
\<close>

subsection \<open>Data\<close>

text \<open>The transport's \<open>UID\<close> is a string or a number; the source compares uids with \<open>===\<close>.\<close>

datatype uid = UidString string | UidNumber nat

text \<open>The \<open>mediaType\<close> argument of the transport events.\<close>

datatype media = Audio | Video

text \<open>
  A remote user as the handlers read it: \<open>uid\<close>, \<open>audioTrack\<close> and \<open>videoTrack\<close>
  (a track handle when the transport has one for that kind).
\<close>

record remote_user =
  uid :: uid
  audioTrack :: "nat option"
  videoTrack :: "nat option"

text \<open>A local track, bound at creation to the device id it was created with.\<close>

datatype track = MicrophoneAudioTrack string | CameraVideoTrack string

record media_device =
  deviceId :: string
  label :: string

text \<open>
  Modelled from the spec: the type of \<open>client.connectionState\<close> belongs to the transport
  library, which is not part of the repository. The spec names the states Disconnected,
  Connecting, Connected and Leaving; the source compares the value with the literals
  \<open>'DISCONNECTED'\<close> and \<open>'CONNECTED'\<close> only.
\<close>

datatype connection_state = DISCONNECTED | CONNECTING | CONNECTED | LEAVING

text \<open>The value a rejected join promise carries: an error object, read through \<open>.code\<close>.\<close>

datatype join_error = JoinError "string option"

fun code :: "join_error \<Rightarrow> string option" where
  "code (JoinError c) = c"

datatype join_result = Resolved | Rejected join_error

text \<open>Every call the component makes on a collaborator.\<close>

datatype action =
    Join string string string nat
  | SetClientRole string
  | OnUserPublished
  | OnUserUnpublished
  | Subscribe uid media
  | PlayRemoteAudio uid
  | SchedulePlayRemoteVideo uid
  | Close track
  | Unpublish "track list"
  | CreateMicrophoneAudioTrack string
  | CreateCameraVideoTrack string
  | Publish "track list"
  | SetEnabled track bool
  | SetPlaybackDevice string
  | Leave
  | OnLeave
  | ToastSuccess string
  | ToastError string
  | ConsoleWarn string
  | ConsoleError string

text \<open>
  The props and the build-time configuration: \<open>VITE_AGORA_APP_ID\<close>, \<open>channelName\<close>,
  \<open>userName\<close>.
\<close>

record config =
  appId :: string
  channelName :: string
  userName :: string

text \<open>
  One run of the join effect. Its closure owns an \<open>AbortController\<close> and sees the
  \<open>localAudioTrack\<close> and \<open>localVideoTrack\<close> of the render that created it; \<open>awaiting\<close>
  says that its \<open>init\<close> is suspended at \<open>await joinPromise\<close>.
\<close>

record effect_run =
  aborted :: bool
  awaiting :: bool
  seenAudioTrack :: "track option"
  seenVideoTrack :: "track option"

text \<open>
  The component state (the \<open>useState\<close> cells), the listeners registered on the client,
  the effect runs, the continuations waiting for a subscribe to settle, the number of
  cleanups waiting at \<open>await client.leave()\<close>, the trace of calls, and the environment: \<open>connectionState\<close> is what the client reports when read,
  \<open>failing\<close> lists the calls that throw (or reject) at present, \<open>canSetPlaybackDevice\<close>
  says whether the client has the optional \<open>setPlaybackDevice\<close> method.
\<close>

record state =
  cameras :: "media_device list"
  microphones :: "media_device list"
  speakers :: "media_device list"
  selectedCameraId :: string
  selectedMicId :: string
  selectedSpeakerId :: string
  localVideoTrack :: "track option"
  localAudioTrack :: "track option"
  users :: "remote_user list"
  isVideoEnabled :: bool
  isAudioEnabled :: bool
  hasJoined :: bool
  publishedListeners :: nat
  unpublishedListeners :: nat
  runs :: "effect_run list"
  subscribing :: "(remote_user \<times> media) list"
  leaving :: nat
  calls :: "action list"
  connectionState :: connection_state
  failing :: "action list"
  canSetPlaybackDevice :: bool

definition initial :: state where
  "initial = \<lparr> cameras = [], microphones = [], speakers = [],
     selectedCameraId = [], selectedMicId = [], selectedSpeakerId = [],
     localVideoTrack = None, localAudioTrack = None, users = [],
     isVideoEnabled = True, isAudioEnabled = True, hasJoined = False,
     publishedListeners = 0, unpublishedListeners = 0, runs = [], subscribing = [],
     leaving = 0, calls = [], connectionState = DISCONNECTED, failing = [],
     canSetPlaybackDevice = False \<rparr>"

subsection \<open>Calls that may throw\<close>

text \<open>
  A straight-line sequence of calls inside one \<open>try\<close> block (or one function body): the
  calls are made in order until the first one that throws. The result is the calls made,
  the throwing one included, and whether one threw.
\<close>

fun attempt :: "action list \<Rightarrow> action list \<Rightarrow> action list \<times> bool" where
  "attempt bad [] = ([], False)"
| "attempt bad (c # cs) =
     (if c \<in> set bad then ([c], True)
      else (case attempt bad cs of (made, threw) \<Rightarrow> (c # made, threw)))"

text \<open>\<open>track?.close()\<close>: a call only when the track is there.\<close>

fun closes :: "track option \<Rightarrow> action list" where
  "closes None = []"
| "closes (Some t) = [Close t]"

text \<open>\<open>[a, v].filter(Boolean)\<close>: the tracks that are not null.\<close>

fun present :: "track option list \<Rightarrow> track list" where
  "present [] = []"
| "present (None # ts) = present ts"
| "present (Some t # ts) = t # present ts"

definition say :: "action list \<Rightarrow> state \<Rightarrow> state" where
  "say as s = s\<lparr>calls := calls s @ as\<rparr>"

subsection \<open>Device enumeration and selection\<close>

text \<open>\<open>cams[0]\<close>: the first entry's id becomes the selection when the list has one.\<close>

fun first_id :: "media_device list \<Rightarrow> string \<Rightarrow> string" where
  "first_id [] old = old"
| "first_id (d # ds) old = deviceId d"

text \<open>
  \<open>loadDevices\<close>: \<open>spks\<close> is \<open>None\<close> when the library has no \<open>getPlaybackDevices\<close>.
\<close>

definition loadDevices ::
  "media_device list \<Rightarrow> media_device list \<Rightarrow> media_device list option \<Rightarrow> state \<Rightarrow> state" where
  "loadDevices cams mics spks s =
     s\<lparr>cameras := cams, microphones := mics,
       speakers := (case spks of None \<Rightarrow> [] | Some l \<Rightarrow> l),
       selectedCameraId := first_id cams (selectedCameraId s),
       selectedMicId := first_id mics (selectedMicId s),
       selectedSpeakerId := first_id (case spks of None \<Rightarrow> [] | Some l \<Rightarrow> l) (selectedSpeakerId s)\<rparr>"

subsection \<open>Local tracks\<close>

text \<open>
  \<open>setupTracks\<close>, run to completion (its awaits are not interleaved with other events):
  everything from the first \<open>close\<close> to the second \<open>create\<close> is one \<open>try\<close> sequence; the
  two state setters run only when it went through; \<open>publish\<close> follows. Any throw or
  rejection lands in the \<open>catch\<close>.
\<close>

definition setupTracks :: "state \<Rightarrow> state" where
  "setupTracks s =
     (if \<not> hasJoined s \<or> connectionState s \<noteq> CONNECTED \<or>
         selectedCameraId s = [] \<or> selectedMicId s = [] then s
      else
        (case attempt (failing s)
                (closes (localAudioTrack s) @ closes (localVideoTrack s) @
                 [Unpublish (present [localAudioTrack s, localVideoTrack s]),
                  CreateMicrophoneAudioTrack (selectedMicId s),
                  CreateCameraVideoTrack (selectedCameraId s)]) of
           (made, True) \<Rightarrow>
             say (made @ [ConsoleError ''Error updating tracks:'',
                          ToastError ''Could not update media tracks'']) s
         | (made, False) \<Rightarrow>
             (let audioTrack = MicrophoneAudioTrack (selectedMicId s);
                  videoTrack = CameraVideoTrack (selectedCameraId s);
                  s1 = (say made s)\<lparr>localAudioTrack := Some audioTrack,
                                     localVideoTrack := Some videoTrack\<rparr>
              in (case attempt (failing s) [Publish [audioTrack, videoTrack]] of
                    (made2, True) \<Rightarrow>
                      say (made2 @ [ConsoleError ''Error updating tracks:'',
                                    ToastError ''Could not update media tracks'']) s1
                  | (made2, False) \<Rightarrow> say made2 s1))))"

text \<open>
  The effect around \<open>setupTracks\<close>. React runs it after a render in which
  \<open>selectedCameraId\<close>, \<open>selectedMicId\<close> or \<open>hasJoined\<close> changed; \<open>old\<close> is the state
  before the change.
\<close>

definition tracksEffect :: "state \<Rightarrow> state \<Rightarrow> state" where
  "tracksEffect old s =
     (if selectedCameraId s = selectedCameraId old \<and> selectedMicId s = selectedMicId old \<and>
         hasJoined s = hasJoined old then s
      else if selectedCameraId s \<noteq> [] \<and> selectedMicId s \<noteq> [] \<and> hasJoined s
           then setupTracks s else s)"

text \<open>
  The three \<open>onChange\<close> handlers of the device selects; \<open>v\<close> is \<open>e.target.value\<close>.
\<close>

definition onChangeCamera :: "string \<Rightarrow> state \<Rightarrow> state" where
  "onChangeCamera v s = s\<lparr>selectedCameraId := v\<rparr>"

definition onChangeMicrophone :: "string \<Rightarrow> state \<Rightarrow> state" where
  "onChangeMicrophone v s = s\<lparr>selectedMicId := v\<rparr>"

definition onChangeSpeaker :: "string \<Rightarrow> state \<Rightarrow> state" where
  "onChangeSpeaker v s =
     (let s1 = s\<lparr>selectedSpeakerId := v\<rparr>
      in if canSetPlaybackDevice s then say [SetPlaybackDevice v] s1 else s1)"

text \<open>
  \<open>toggleVideo\<close> and \<open>toggleAudio\<close>: the flag flips only when \<open>setEnabled\<close> went through.
\<close>

definition toggleVideo :: "state \<Rightarrow> state" where
  "toggleVideo s =
     (case localVideoTrack s of
        None \<Rightarrow> s
      | Some t \<Rightarrow>
          (case attempt (failing s) [SetEnabled t (\<not> isVideoEnabled s)] of
             (made, True) \<Rightarrow> say made s
           | (made, False) \<Rightarrow> (say made s)\<lparr>isVideoEnabled := \<not> isVideoEnabled s\<rparr>))"

definition toggleAudio :: "state \<Rightarrow> state" where
  "toggleAudio s =
     (case localAudioTrack s of
        None \<Rightarrow> s
      | Some t \<Rightarrow>
          (case attempt (failing s) [SetEnabled t (\<not> isAudioEnabled s)] of
             (made, True) \<Rightarrow> say made s
           | (made, False) \<Rightarrow> (say made s)\<lparr>isAudioEnabled := \<not> isAudioEnabled s\<rparr>))"

subsection \<open>Joining and leaving\<close>

text \<open>
  \<open>init\<close> up to \<open>await joinPromise\<close>. \<open>rnd\<close> is \<open>Math.floor(Math.random() * 100000)\<close>,
  \<open>ab\<close> is \<open>abortController.signal.aborted\<close> as read after the join call was issued.
  The second component says whether \<open>init\<close> is now suspended at the \<open>await\<close>.
  (\<open>client\<close> is created during render and is never null. A join that fails is a
  rejected promise, not a throw of the call.)
\<close>

definition init :: "config \<Rightarrow> nat \<Rightarrow> bool \<Rightarrow> state \<Rightarrow> state \<times> bool" where
  "init cfg rnd ab s =
     (if connectionState s \<noteq> DISCONNECTED
      then (say [ConsoleWarn ''Client already connected or connecting''] s, False)
      else
        (let s1 = say [Join (appId cfg) (channelName cfg) (userName cfg) rnd] s
         in if ab then (s1, False) else (s1, True)))"

text \<open>
  \<open>init\<close> from the \<open>await\<close> on, when the join promise has settled with \<open>r\<close>; \<open>ab\<close> is
  \<open>abortController.signal.aborted\<close> as read at that moment. A rejection goes to the
  \<open>catch\<close>. The calls after the \<open>await\<close> do not throw: \<open>setClientRole\<close> returns a
  promise that nobody awaits.
\<close>

definition init_resumed :: "bool \<Rightarrow> join_result \<Rightarrow> state \<Rightarrow> state" where
  "init_resumed ab r s =
     (case r of
        Resolved \<Rightarrow>
          if ab then s
          else (say [SetClientRole ''host'', ToastSuccess ''Connected to video call'',
                     OnUserPublished, OnUserUnpublished] s)
                 \<lparr>hasJoined := True,
                  publishedListeners := Suc (publishedListeners s),
                  unpublishedListeners := Suc (unpublishedListeners s)\<rparr>
      | Rejected err \<Rightarrow>
          if code err \<noteq> Some ''OPERATION_ABORTED''
          then say [ConsoleError ''Error initializing video call:'',
                    ToastError ''Failed to connect to video call'', OnLeave] s
          else s)"

text \<open>
  Where a call of an async function stands at the end of a step: it has returned, it is
  suspended at an \<open>await\<close>, or an exception has left it.
\<close>

datatype completion = Returned | Suspended | Thrown

text \<open>
  The \<open>cleanup\<close> function of the effect's return, up to \<open>await client.leave()\<close>, with the
  tracks its closure sees. One \<open>try\<close> holds the two closes and the awaited leave. A close
  that throws goes to the \<open>catch\<close> at once, and the leave is never called. Otherwise the
  leave is called and the function waits for its promise.
\<close>

definition cleanup :: "effect_run \<Rightarrow> state \<Rightarrow> state \<times> completion" where
  "cleanup r s =
     (case attempt (failing s) (closes (seenAudioTrack r) @ closes (seenVideoTrack r)) of
        (made, True) \<Rightarrow> (say (made @ [ConsoleWarn ''Error during cleanup:'']) s, Returned)
      | (made, False) \<Rightarrow> (say (made @ [Leave]) s, Suspended))"

text \<open>
  \<open>cleanup\<close> from the \<open>await\<close> on, when the promise of \<open>client.leave()\<close> has settled;
  \<open>ok\<close> says that it resolved. A rejection goes to the same \<open>catch\<close>, at that later
  moment.
\<close>

definition cleanup_resumed :: "bool \<Rightarrow> state \<Rightarrow> state \<times> completion" where
  "cleanup_resumed ok s =
     (if ok then (s, Returned)
      else (say [ConsoleWarn ''Error during cleanup:''] s, Returned))"

text \<open>
  \<open>handleLeave\<close> has no \<open>try\<close>: a close that throws ends the handler there, and the
  exception leaves the handler (second component). \<open>client.leave()\<close> is not awaited, so a
  rejection of its promise does not stop the two calls after it.
\<close>

definition handleLeave :: "state \<Rightarrow> state \<times> bool" where
  "handleLeave s =
     (case attempt (failing s) (closes (localAudioTrack s) @ closes (localVideoTrack s)) of
        (made, True) \<Rightarrow> (say made s, True)
      | (made, False) \<Rightarrow>
          (say (made @ [Leave, OnLeave, ToastSuccess ''Left video call'']) s, False))"

subsection \<open>Remote participants\<close>

text \<open>
  The \<open>'user-published'\<close> listener up to \<open>await client.subscribe(user, mediaType)\<close>. The
  record \<open>user\<close> stands for the transport's user object as the listener reads it.
\<close>

definition userPublished :: "remote_user \<Rightarrow> media \<Rightarrow> state \<Rightarrow> state" where
  "userPublished user mediaType s =
     (say [Subscribe (uid user) mediaType] s)
       \<lparr>subscribing := subscribing s @ [(user, mediaType)]\<rparr>"

text \<open>The updater given to \<open>setUsers\<close> by that listener.\<close>

definition addUser :: "remote_user \<Rightarrow> remote_user list \<Rightarrow> remote_user list" where
  "addUser user prev =
     (case List.find (\<lambda>u. uid u = uid user) prev of
        Some found \<Rightarrow> prev
      | None \<Rightarrow> prev @ [user])"

text \<open>
  The listener after the subscribe resolved. (When the subscribe rejects the listener
  ends at the \<open>await\<close>.) The video playback is put on a 300 ms timer.
\<close>

definition userPublished_resumed :: "remote_user \<Rightarrow> media \<Rightarrow> state \<Rightarrow> state" where
  "userPublished_resumed user mediaType s =
     say ((if mediaType = Audio \<and> audioTrack user \<noteq> None
           then [PlayRemoteAudio (uid user)] else []) @
          (if mediaType = Video then [SchedulePlayRemoteVideo (uid user)] else []))
       (s\<lparr>users := addUser user (users s)\<rparr>)"

text \<open>The \<open>'user-unpublished'\<close> listener; it takes the user only.\<close>

definition userUnpublished :: "remote_user \<Rightarrow> state \<Rightarrow> state" where
  "userUnpublished user s = s\<lparr>users := filter (\<lambda>u. uid u \<noteq> uid user) (users s)\<rparr>"

subsection \<open>The component as a transition system\<close>

text \<open>
  What can happen to a mounted component, one event at a time. Promise continuations are
  events of their own, so other events can come between a call and its settlement.
\<close>

datatype event =
    DevicesLoaded "media_device list" "media_device list" "media_device list option"
  | EffectRun config nat
  | EffectCleanup nat
  | LeaveSettled bool
  | JoinSettled nat join_result
  | UserPublishedEvent remote_user media
  | SubscribeSettled nat bool
  | UserUnpublishedEvent remote_user media
  | ChangeCamera string
  | ChangeMicrophone string
  | ChangeSpeaker string
  | ToggleVideoClicked
  | ToggleAudioClicked
  | LeaveClicked
  | Environment connection_state "action list" bool

text \<open>
  The join effect runs (on mount, or when \<open>channelName\<close> or \<open>userName\<close> changed): a new
  \<open>AbortController\<close>, then \<open>init()\<close>.
\<close>

definition effectRun :: "config \<Rightarrow> nat \<Rightarrow> state \<Rightarrow> state" where
  "effectRun cfg rnd s =
     (let r = \<lparr>aborted = False, awaiting = False,
                seenAudioTrack = localAudioTrack s, seenVideoTrack = localVideoTrack s\<rparr>
      in (case init cfg rnd (aborted r) s of
            (s1, w) \<Rightarrow> s1\<lparr>runs := runs s1 @ [r\<lparr>awaiting := w\<rparr>]\<rparr>))"

text \<open>
  The function the effect returns, for run \<open>i\<close>: \<open>abort()\<close>, then \<open>cleanup()\<close>, which runs
  up to its \<open>await\<close> if it gets there.
\<close>

definition effectCleanup :: "nat \<Rightarrow> state \<Rightarrow> state" where
  "effectCleanup i s =
     (if i < length (runs s)
      then (case cleanup (runs s ! i)
                   (s\<lparr>runs := (runs s)[i := (runs s ! i)\<lparr>aborted := True\<rparr>]\<rparr>) of
              (s1, c) \<Rightarrow> if c = Suspended then s1\<lparr>leaving := Suc (leaving s1)\<rparr> else s1)
      else s)"

text \<open>
  The promise of a \<open>client.leave()\<close> that a cleanup awaits settles, and that cleanup goes
  on. (The waiting cleanups differ in nothing that their continuation reads.)
\<close>

definition leaveSettled :: "bool \<Rightarrow> state \<Rightarrow> state" where
  "leaveSettled ok s =
     (if 0 < leaving s then fst (cleanup_resumed ok (s\<lparr>leaving := leaving s - 1\<rparr>)) else s)"

text \<open>The join promise of run \<open>i\<close> settles and its \<open>init\<close> goes on.\<close>

definition joinSettled :: "nat \<Rightarrow> join_result \<Rightarrow> state \<Rightarrow> state" where
  "joinSettled i r s =
     (if i < length (runs s) \<and> awaiting (runs s ! i)
      then init_resumed (aborted (runs s ! i)) r
             (s\<lparr>runs := (runs s)[i := (runs s ! i)\<lparr>awaiting := False\<rparr>]\<rparr>)
      else s)"

text \<open>The \<open>k\<close>-th waiting subscribe settles; \<open>ok\<close> says that it resolved.\<close>

definition subscribeSettled :: "nat \<Rightarrow> bool \<Rightarrow> state \<Rightarrow> state" where
  "subscribeSettled k ok s =
     (if k < length (subscribing s)
      then (let s1 = s\<lparr>subscribing := take k (subscribing s) @ drop (Suc k) (subscribing s)\<rparr>
            in if ok then userPublished_resumed (fst (subscribing s ! k)) (snd (subscribing s ! k)) s1
               else s1)
      else s)"

text \<open>The handler an event runs. A transport event runs every registered listener.\<close>

fun react :: "event \<Rightarrow> state \<Rightarrow> state" where
  "react (DevicesLoaded cams mics spks) s = loadDevices cams mics spks s"
| "react (EffectRun cfg rnd) s = effectRun cfg rnd s"
| "react (EffectCleanup i) s = effectCleanup i s"
| "react (LeaveSettled ok) s = leaveSettled ok s"
| "react (JoinSettled i r) s = joinSettled i r s"
| "react (UserPublishedEvent user mediaType) s =
     (userPublished user mediaType ^^ publishedListeners s) s"
| "react (SubscribeSettled k ok) s = subscribeSettled k ok s"
| "react (UserUnpublishedEvent user mediaType) s =
     (userUnpublished user ^^ unpublishedListeners s) s"
| "react (ChangeCamera v) s = onChangeCamera v s"
| "react (ChangeMicrophone v) s = onChangeMicrophone v s"
| "react (ChangeSpeaker v) s = onChangeSpeaker v s"
| "react ToggleVideoClicked s = toggleVideo s"
| "react ToggleAudioClicked s = toggleAudio s"
| "react LeaveClicked s = fst (handleLeave s)"
| "react (Environment cs bad can) s =
     s\<lparr>connectionState := cs, failing := bad, canSetPlaybackDevice := can\<rparr>"

text \<open>One event: its handler, then the tracks effect when its dependencies changed.\<close>

definition step :: "state \<Rightarrow> event \<Rightarrow> state" where
  "step s e = tracksEffect s (react e s)"

definition run :: "state \<Rightarrow> event list \<Rightarrow> state" where
  "run s es = foldl step s es"

text \<open>
  The tracks effect changes nothing but the two local tracks and the trace.
\<close>

definition tracks_only :: "state \<Rightarrow> state \<Rightarrow> bool" where
  "tracks_only s s' \<longleftrightarrow>
     s' = s\<lparr>localVideoTrack := localVideoTrack s', localAudioTrack := localAudioTrack s',
            calls := calls s'\<rparr>"

subsection \<open>Concrete scenarios\<close>

definition room_alice :: config where
  "room_alice = \<lparr>appId = ''app-id'', channelName = ''room-1'', userName = ''Alice''\<rparr>"

definition room_two :: config where
  "room_two = \<lparr>appId = ''app-id'', channelName = ''room-2'', userName = ''Alice''\<rparr>"

definition bob_video :: remote_user where
  "bob_video = \<lparr>uid = UidString ''bob-42'', audioTrack = None, videoTrack = Some 1\<rparr>"

definition bob_both :: remote_user where
  "bob_both = \<lparr>uid = UidString ''bob-42'', audioTrack = Some 2, videoTrack = Some 1\<rparr>"

definition cam1 :: media_device where
  "cam1 = \<lparr>deviceId = ''cam-1'', label = ''Camera''\<rparr>"

definition mic1 :: media_device where
  "mic1 = \<lparr>deviceId = ''mic-1'', label = ''Microphone''\<rparr>"

definition mic2 :: media_device where
  "mic2 = \<lparr>deviceId = ''mic-2'', label = ''Headset''\<rparr>"

text \<open>
  Alice joins \<open>room-1\<close> and the join resolves; then Bob publishes video, and audio
  after it.
\<close>

definition connected :: "event list" where
  "connected = [EffectRun room_alice 7, Environment CONNECTED [] False, JoinSettled 0 Resolved]"

definition bob_present :: "event list" where
  "bob_present = connected @ [UserPublishedEvent bob_video Video, SubscribeSettled 0 True]"

definition bob_audio_and_video :: "event list" where
  "bob_audio_and_video = bob_present @ [UserPublishedEvent bob_both Audio, SubscribeSettled 0 True]"

text \<open>
  The same with devices: the tracks effect creates and publishes a microphone and a
  camera track once the join resolved.
\<close>

definition publishing :: "event list" where
  "publishing = [DevicesLoaded [cam1] [mic1, mic2] None, EffectRun room_alice 7,
     Environment CONNECTED [] False, JoinSettled 0 Resolved]"

text \<open>
  The \<open>channelName\<close> prop changes while publishing: React runs the cleanup of the first
  effect run and then the effect again, whose closure now sees the two tracks.
\<close>

definition channel_changed :: "event list" where
  "channel_changed =
     publishing @ [EffectCleanup 0, Environment LEAVING [] False, EffectRun room_two 8]"

text \<open>Pictures of the environment in which a call throws or rejects.\<close>

definition close_fails_at_cleanup :: "event list" where
  "close_fails_at_cleanup =
     channel_changed @
     [Environment DISCONNECTED [Close (MicrophoneAudioTrack ''mic-1'')] False]"

definition close_fails_at_leave :: "event list" where
  "close_fails_at_leave =
     publishing @ [Environment CONNECTED [Close (MicrophoneAudioTrack ''mic-1'')] False]"

definition leave_fails :: "event list" where
  "leave_fails = publishing @ [Environment CONNECTED [Leave] False]"

text \<open>
  A join is pending when the effect's cleanup runs (React is about to run the effect
  again).
\<close>

definition join_pending :: "event list" where
  "join_pending = [EffectRun room_alice 7, Environment CONNECTING [] False, EffectCleanup 0]"

text \<open>The user clicks Leave while the join is pending.\<close>

definition leave_clicked_while_joining :: "event list" where
  "leave_clicked_while_joining = [EffectRun room_alice 7, LeaveClicked]"

text \<open>The calls an event adds to the trace.\<close>

definition new_calls :: "state \<Rightarrow> event \<Rightarrow> action list" where
  "new_calls s e = drop (length (calls s)) (calls (step s e))"

section \<open>Properties\<close>

subsection \<open>Auxiliary facts\<close>

lemma attempt_ok: "set cs \<inter> set bad = {} \<Longrightarrow> attempt bad cs = (cs, False)"
  by (induction cs) auto

lemma attempt_eq:
  "attempt bad cs =
     (takeWhile (\<lambda>c. c \<notin> set bad) cs @ take 1 (dropWhile (\<lambda>c. c \<notin> set bad) cs),
      list_ex (\<lambda>c. c \<in> set bad) cs)"
  by (induction cs) (auto split: prod.splits)

lemma tracks_only_refl: "tracks_only s s"
  by (simp add: tracks_only_def)

lemma tracks_only_setupTracks: "tracks_only s (setupTracks s)"
  by (simp add: tracks_only_def setupTracks_def say_def Let_def split: prod.splits bool.splits)

lemma tracks_only_tracksEffect: "tracks_only s (tracksEffect old s)"
  by (simp add: tracksEffect_def tracks_only_setupTracks tracks_only_refl)

lemma tracks_only_fields:
  assumes "tracks_only s s'"
  shows "users s' = users s" and "runs s' = runs s" and "hasJoined s' = hasJoined s"
    and "publishedListeners s' = publishedListeners s"
    and "unpublishedListeners s' = unpublishedListeners s"
    and "subscribing s' = subscribing s"
    and "selectedCameraId s' = selectedCameraId s"
    and "selectedMicId s' = selectedMicId s"
    and "selectedSpeakerId s' = selectedSpeakerId s"
    and "connectionState s' = connectionState s"
    and "failing s' = failing s"
    and "leaving s' = leaving s"
proof -
  from assms have e: "s' = s\<lparr>localVideoTrack := localVideoTrack s', localAudioTrack := localAudioTrack s',
            calls := calls s'\<rparr>" by (simp add: tracks_only_def)
  show "users s' = users s" by (subst e) simp
  show "runs s' = runs s" by (subst e) simp
  show "hasJoined s' = hasJoined s" by (subst e) simp
  show "publishedListeners s' = publishedListeners s" by (subst e) simp
  show "unpublishedListeners s' = unpublishedListeners s" by (subst e) simp
  show "subscribing s' = subscribing s" by (subst e) simp
  show "selectedCameraId s' = selectedCameraId s" by (subst e) simp
  show "selectedMicId s' = selectedMicId s" by (subst e) simp
  show "selectedSpeakerId s' = selectedSpeakerId s" by (subst e) simp
  show "connectionState s' = connectionState s" by (subst e) simp
  show "failing s' = failing s" by (subst e) simp
  show "leaving s' = leaving s" by (subst e) simp
qed

lemmas effect_fields = tracks_only_fields [OF tracks_only_tracksEffect]

lemma tracksEffect_idle:
  "selectedCameraId s' = selectedCameraId s \<Longrightarrow> selectedMicId s' = selectedMicId s \<Longrightarrow>
   hasJoined s' = hasJoined s \<Longrightarrow> tracksEffect s s' = s'"
  by (simp add: tracksEffect_def)

lemma published_pow:
  "(userPublished user m ^^ n) s =
     s\<lparr>calls := calls s @ replicate n (Subscribe (uid user) m),
       subscribing := subscribing s @ replicate n (user, m)\<rparr>"
proof (induction n)
  case 0
  show ?case by simp
next
  case (Suc n)
  show ?case
    by (simp only: funpow.simps o_apply Suc)
       (simp add: userPublished_def say_def replicate_append_same)
qed

lemma unpublished_pow:
  "(userUnpublished user ^^ n) s =
     (if n = 0 then s else s\<lparr>users := filter (\<lambda>u. uid u \<noteq> uid user) (users s)\<rparr>)"
proof (induction n)
  case 0
  show ?case by simp
next
  case (Suc n)
  show ?case
    by (simp only: funpow.simps o_apply Suc) (simp add: userUnpublished_def)
qed

lemma runs_react:
  "runs (react e s) = runs s \<or>
   (\<exists>r. runs (react e s) = runs s @ [r]) \<or>
   (\<exists>i. i < length (runs s) \<and> runs (react e s) = (runs s)[i := (runs s ! i)\<lparr>aborted := True\<rparr>]) \<or>
   (\<exists>i. i < length (runs s) \<and> runs (react e s) = (runs s)[i := (runs s ! i)\<lparr>awaiting := False\<rparr>])"
proof (cases e)
  case (DevicesLoaded cams mics spks)
  then show ?thesis by (simp add: loadDevices_def)
next
  case (EffectRun cfg rnd)
  then show ?thesis by (simp add: effectRun_def init_def say_def Let_def)
next
  case (EffectCleanup i)
  then show ?thesis
    by (auto simp: effectCleanup_def cleanup_def say_def split: prod.splits bool.splits)
next
  case (LeaveSettled ok)
  then show ?thesis by (simp add: leaveSettled_def cleanup_resumed_def say_def)
next
  case (JoinSettled i r)
  then show ?thesis
    by (auto simp: joinSettled_def init_resumed_def say_def split: join_result.splits)
next
  case (UserPublishedEvent user m)
  then show ?thesis by (simp add: published_pow)
next
  case (SubscribeSettled k ok)
  then show ?thesis
    by (simp add: subscribeSettled_def userPublished_resumed_def say_def Let_def)
next
  case (UserUnpublishedEvent user m)
  then show ?thesis by (simp add: unpublished_pow)
next
  case (ChangeCamera v)
  then show ?thesis by (simp add: onChangeCamera_def)
next
  case (ChangeMicrophone v)
  then show ?thesis by (simp add: onChangeMicrophone_def)
next
  case (ChangeSpeaker v)
  then show ?thesis by (simp add: onChangeSpeaker_def say_def Let_def)
next
  case ToggleVideoClicked
  then show ?thesis
    by (simp add: toggleVideo_def say_def split: option.splits prod.splits bool.splits)
next
  case ToggleAudioClicked
  then show ?thesis
    by (simp add: toggleAudio_def say_def split: option.splits prod.splits bool.splits)
next
  case LeaveClicked
  then show ?thesis
    by (simp add: handleLeave_def say_def split: prod.splits bool.splits)
next
  case (Environment cs bad can)
  then show ?thesis by simp
qed

lemma aborted_step:
  assumes "i < length (runs s)" and "aborted (runs s ! i)"
  shows "i < length (runs (step s e)) \<and> aborted (runs (step s e) ! i)"
proof -
  have r: "runs (step s e) = runs (react e s)"
    by (simp add: step_def effect_fields)
  from runs_react [of e s] assms show ?thesis
    unfolding r by (auto simp: nth_append nth_list_update)
qed

lemma aborted_run:
  "i < length (runs s) \<Longrightarrow> aborted (runs s ! i) \<Longrightarrow>
   i < length (runs (run s es)) \<and> aborted (runs (run s es) ! i)"
proof (induction es arbitrary: s)
  case Nil
  then show ?case by (simp add: run_def)
next
  case (Cons e es)
  from aborted_step [OF Cons.prems, of e] Cons.IH [of "step s e"]
  show ?case by (simp add: run_def)
qed

lemma run_append: "run s (xs @ ys) = run (run s xs) ys"
  by (simp add: run_def)

lemma run_Cons: "run s (e # es) = run (step s e) es"
  by (simp add: run_def)

lemma run_Nil: "run s [] = s"
  by (simp add: run_def)

lemma aborted_after_cleanup:
  assumes "i < length (runs s)"
  shows "i < length (runs (step s (EffectCleanup i))) \<and> aborted (runs (step s (EffectCleanup i)) ! i)"
  using assms
  by (simp add: step_def effect_fields effectCleanup_def cleanup_def say_def
      split: prod.splits bool.splits)

lemma join_settled_aborted:
  assumes "i < length (runs t)" and "aborted (runs t ! i)"
  shows "step t (JoinSettled i Resolved) = t\<lparr>runs := (runs t)[i := (runs t ! i)\<lparr>awaiting := False\<rparr>]\<rparr>"
    and "hasJoined (step t (JoinSettled i r)) = hasJoined t"
    and "publishedListeners (step t (JoinSettled i r)) = publishedListeners t"
    and "unpublishedListeners (step t (JoinSettled i r)) = unpublishedListeners t"
proof -
  have same: "(runs t)[i := (runs t ! i)\<lparr>awaiting := False\<rparr>] = runs t" if "\<not> awaiting (runs t ! i)"
  proof -
    from that have "(runs t ! i)\<lparr>awaiting := False\<rparr> = runs t ! i"
      by (cases "runs t ! i") simp
    then show ?thesis by simp
  qed
  show "step t (JoinSettled i Resolved) = t\<lparr>runs := (runs t)[i := (runs t ! i)\<lparr>awaiting := False\<rparr>]\<rparr>"
    using assms same
    by (cases "awaiting (runs t ! i)")
       (simp_all add: step_def joinSettled_def init_resumed_def tracksEffect_idle)
  show "hasJoined (step t (JoinSettled i r)) = hasJoined t"
    using assms
    by (simp add: step_def effect_fields joinSettled_def init_resumed_def say_def
        split: join_result.splits)
  show "publishedListeners (step t (JoinSettled i r)) = publishedListeners t"
    using assms
    by (simp add: step_def effect_fields joinSettled_def init_resumed_def say_def
        split: join_result.splits)
  show "unpublishedListeners (step t (JoinSettled i r)) = unpublishedListeners t"
    using assms
    by (simp add: step_def effect_fields joinSettled_def init_resumed_def say_def
        split: join_result.splits)
qed

lemmas model_defs = run_def step_def tracksEffect_def setupTracks_def say_def initial_def
  loadDevices_def onChangeCamera_def onChangeMicrophone_def onChangeSpeaker_def
  toggleVideo_def toggleAudio_def init_def init_resumed_def cleanup_def cleanup_resumed_def
  handleLeave_def leaveSettled_def
  userPublished_def addUser_def userPublished_resumed_def userUnpublished_def
  effectRun_def effectCleanup_def joinSettled_def subscribeSettled_def

lemma addUser_eq:
  "addUser user prev = (if uid user \<in> set (map uid prev) then prev else prev @ [user])"
proof (cases "List.find (\<lambda>u. uid u = uid user) prev")
  case None
  then have "uid user \<notin> set (map uid prev)"
    by (auto simp: find_None_iff)
  with None show ?thesis by (simp add: addUser_def)
next
  case (Some found)
  then obtain i where "i < length prev" and "uid (prev ! i) = uid user"
    by (auto simp: find_Some_iff)
  then have "uid user \<in> set (map uid prev)"
    by (auto intro!: image_eqI [where x = "prev ! i"])
  with Some show ?thesis by (simp add: addUser_def)
qed

lemma distinct_addUser:
  "distinct (map uid prev) \<Longrightarrow> distinct (map uid (addUser user prev))"
  by (simp add: addUser_eq)

lemma users_after_leave: "users (fst (handleLeave s)) = users s"
  by (simp add: handleLeave_def say_def split: prod.splits bool.splits)

lemma distinct_react:
  assumes "distinct (map uid (users s))"
  shows "distinct (map uid (users (react e s)))"
proof (cases e)
  case (DevicesLoaded cams mics spks)
  with assms show ?thesis by (simp add: loadDevices_def del: distinct_map)
next
  case (EffectRun cfg rnd)
  with assms show ?thesis by (simp add: effectRun_def init_def say_def Let_def del: distinct_map)
next
  case (EffectCleanup i)
  with assms show ?thesis
    by (simp add: effectCleanup_def cleanup_def say_def del: distinct_map
        split: prod.splits bool.splits)
next
  case (LeaveSettled ok)
  with assms show ?thesis
    by (simp add: leaveSettled_def cleanup_resumed_def say_def del: distinct_map)
next
  case (JoinSettled i r)
  with assms show ?thesis
    by (simp add: joinSettled_def init_resumed_def say_def del: distinct_map
        split: join_result.splits)
next
  case (UserPublishedEvent user m)
  with assms show ?thesis by (simp add: published_pow del: distinct_map)
next
  case (SubscribeSettled k ok)
  with assms show ?thesis
    by (simp add: subscribeSettled_def userPublished_resumed_def say_def Let_def
        distinct_addUser del: distinct_map)
next
  case (UserUnpublishedEvent user m)
  with assms show ?thesis
    by (simp add: unpublished_pow distinct_map_filter del: distinct_map)
next
  case (ChangeCamera v)
  with assms show ?thesis by (simp add: onChangeCamera_def del: distinct_map)
next
  case (ChangeMicrophone v)
  with assms show ?thesis by (simp add: onChangeMicrophone_def del: distinct_map)
next
  case (ChangeSpeaker v)
  with assms show ?thesis by (simp add: onChangeSpeaker_def say_def Let_def del: distinct_map)
next
  case ToggleVideoClicked
  with assms show ?thesis
    by (simp add: toggleVideo_def say_def del: distinct_map
        split: option.splits prod.splits bool.splits)
next
  case ToggleAudioClicked
  with assms show ?thesis
    by (simp add: toggleAudio_def say_def del: distinct_map
        split: option.splits prod.splits bool.splits)
next
  case LeaveClicked
  with assms show ?thesis
    by (simp add: handleLeave_def say_def del: distinct_map split: prod.splits bool.splits)
next
  case (Environment cs bad can)
  with assms show ?thesis by simp
qed

lemma distinct_step:
  assumes "distinct (map uid (users s))"
  shows "distinct (map uid (users (step s e)))"
  using distinct_react [OF assms, of e] by (simp only: step_def effect_fields)

lemma distinct_run:
  "distinct (map uid (users s)) \<Longrightarrow> distinct (map uid (users (run s es)))"
proof (induction es arbitrary: s)
  case Nil
  then show ?case by (simp add: run_Nil)
next
  case (Cons e es)
  from Cons.IH [OF distinct_step [OF Cons.prems, of e]]
  show ?case by (simp add: run_Cons)
qed

lemma users_bob_present: "users (run initial bob_present) = [bob_video]"
  by (simp add: model_defs bob_video_def bob_present_def connected_def room_alice_def)

lemma users_bob_audio_and_video: "users (run initial bob_audio_and_video) = [bob_video]"
  by (simp add: model_defs bob_video_def bob_audio_and_video_def bob_present_def
      bob_both_def connected_def room_alice_def)

lemma publishing_state:
  "run initial publishing =
     \<lparr>cameras = [cam1], microphones = [mic1, mic2], speakers = [],
      selectedCameraId = ''cam-1'', selectedMicId = ''mic-1'', selectedSpeakerId = [],
      localVideoTrack = Some (CameraVideoTrack ''cam-1''),
      localAudioTrack = Some (MicrophoneAudioTrack ''mic-1''), users = [],
      isVideoEnabled = True, isAudioEnabled = True, hasJoined = True,
      publishedListeners = 1, unpublishedListeners = 1,
      runs = [\<lparr>aborted = False, awaiting = False, seenAudioTrack = None,
               seenVideoTrack = None\<rparr>],
      subscribing = [], leaving = 0,
      calls = [Join ''app-id'' ''room-1'' ''Alice'' 7, SetClientRole ''host'',
        ToastSuccess ''Connected to video call'', OnUserPublished, OnUserUnpublished,
        Unpublish [], CreateMicrophoneAudioTrack ''mic-1'', CreateCameraVideoTrack ''cam-1'',
        Publish [MicrophoneAudioTrack ''mic-1'', CameraVideoTrack ''cam-1'']],
      connectionState = CONNECTED, failing = [], canSetPlaybackDevice = False\<rparr>"
  by (simp add: model_defs cam1_def mic1_def mic2_def publishing_def room_alice_def
      Let_def)

lemma channel_changed_state:
  "run initial channel_changed =
     \<lparr>cameras = [cam1], microphones = [mic1, mic2], speakers = [],
      selectedCameraId = ''cam-1'', selectedMicId = ''mic-1'', selectedSpeakerId = [],
      localVideoTrack = Some (CameraVideoTrack ''cam-1''),
      localAudioTrack = Some (MicrophoneAudioTrack ''mic-1''), users = [],
      isVideoEnabled = True, isAudioEnabled = True, hasJoined = True,
      publishedListeners = 1, unpublishedListeners = 1,
      runs = [\<lparr>aborted = True, awaiting = False, seenAudioTrack = None,
               seenVideoTrack = None\<rparr>,
              \<lparr>aborted = False, awaiting = False,
               seenAudioTrack = Some (MicrophoneAudioTrack ''mic-1''),
               seenVideoTrack = Some (CameraVideoTrack ''cam-1'')\<rparr>],
      subscribing = [], leaving = 1,
      calls = [Join ''app-id'' ''room-1'' ''Alice'' 7, SetClientRole ''host'',
        ToastSuccess ''Connected to video call'', OnUserPublished, OnUserUnpublished,
        Unpublish [], CreateMicrophoneAudioTrack ''mic-1'', CreateCameraVideoTrack ''cam-1'',
        Publish [MicrophoneAudioTrack ''mic-1'', CameraVideoTrack ''cam-1''],
        Leave, ConsoleWarn ''Client already connected or connecting''],
      connectionState = LEAVING, failing = [], canSetPlaybackDevice = False\<rparr>"
  unfolding channel_changed_def run_append publishing_state
  by (simp add: model_defs room_two_def Let_def)

lemma close_fails_at_cleanup_state:
  "run initial close_fails_at_cleanup =
     (run initial channel_changed)
       \<lparr>connectionState := DISCONNECTED,
        failing := [Close (MicrophoneAudioTrack ''mic-1'')], canSetPlaybackDevice := False\<rparr>"
  by (simp add: close_fails_at_cleanup_def run_append run_Cons run_Nil step_def
      tracksEffect_idle)

lemma leave_fails_state:
  "run initial leave_fails =
     (run initial publishing)
       \<lparr>connectionState := CONNECTED, failing := [Leave], canSetPlaybackDevice := False\<rparr>"
  by (simp add: leave_fails_def run_append run_Cons run_Nil step_def tracksEffect_idle)

subsection \<open>Cancelled joins\<close>

text \<open>
  Claim C1, as stated, fails. A join is pending and the user clicks Leave: \<open>handleLeave\<close>
  calls the transport's leave and \<open>onLeave\<close>, but it does not signal the abort controller,
  which only the effect's cleanup does. When the join then resolves, \<open>init\<close> goes on:
  \<open>hasJoined\<close> becomes true and both listeners are registered.
\<close>

theorem leave_click_cancels_join_counterexample:
  "calls (run initial leave_clicked_while_joining) =
     [Join ''app-id'' ''room-1'' ''Alice'' 7, Leave, OnLeave,
      ToastSuccess ''Left video call''] \<and>
   awaiting (runs (run initial leave_clicked_while_joining) ! 0) \<and>
   hasJoined (run initial (leave_clicked_while_joining @
     [Environment CONNECTED [] False, JoinSettled 0 Resolved])) \<and>
   publishedListeners (run initial (leave_clicked_while_joining @
     [Environment CONNECTED [] False, JoinSettled 0 Resolved])) = 1 \<and>
   unpublishedListeners (run initial (leave_clicked_while_joining @
     [Environment CONNECTED [] False, JoinSettled 0 Resolved])) = 1"
  by (simp add: model_defs leave_clicked_while_joining_def room_alice_def)

text \<open>
  Claim C1, amended. The cleanup of effect run \<open>i\<close> signals that run's abort controller.
  If it happens before the join promise of run \<open>i\<close> settles, with any events \<open>before\<close>
  and any events \<open>between\<close>, then the settlement leaves \<open>hasJoined\<close> as it was and
  registers no listener, however the promise settles; and when it resolves, nothing in the
  state changes at all except that the run is no longer suspended: it is the re-check of
  the abort signal after the \<open>await\<close> that returns.
\<close>

theorem cancelled_join_never_connects:
  assumes "i < length (runs (run s before))"
  shows "aborted (runs (run s (before @ [EffectCleanup i])) ! i) \<and>
         hasJoined (run s (before @ EffectCleanup i # between @ [JoinSettled i r])) =
           hasJoined (run s (before @ EffectCleanup i # between)) \<and>
         publishedListeners (run s (before @ EffectCleanup i # between @ [JoinSettled i r])) =
           publishedListeners (run s (before @ EffectCleanup i # between)) \<and>
         unpublishedListeners (run s (before @ EffectCleanup i # between @ [JoinSettled i r])) =
           unpublishedListeners (run s (before @ EffectCleanup i # between)) \<and>
         run s (before @ EffectCleanup i # between @ [JoinSettled i Resolved]) =
           (run s (before @ EffectCleanup i # between))
             \<lparr>runs := (runs (run s (before @ EffectCleanup i # between)))
                [i := (runs (run s (before @ EffectCleanup i # between)) ! i)\<lparr>awaiting := False\<rparr>]\<rparr>"
proof -
  define t where "t = run s (before @ EffectCleanup i # between)"
  have t: "t = run (step (run s before) (EffectCleanup i)) between"
    by (simp add: t_def run_append run_Cons)
  have first: "aborted (runs (run s (before @ [EffectCleanup i])) ! i)"
    using aborted_after_cleanup [OF assms] by (simp add: run_append run_Cons run_Nil)
  have ab: "i < length (runs t) \<and> aborted (runs t ! i)"
    unfolding t using aborted_after_cleanup [OF assms] by (simp add: aborted_run)
  have last: "run s (before @ EffectCleanup i # between @ [JoinSettled i x]) = step t (JoinSettled i x)" for x
    by (simp add: t_def run_append run_Cons run_Nil)
  from ab first show ?thesis
    unfolding last t_def [symmetric]
    by (simp add: join_settled_aborted)
qed

theorem cancelled_join_never_connects_witness:
  "0 < length (runs (run initial [EffectRun room_alice 7])) \<and>
   aborted (runs (run initial ([EffectRun room_alice 7] @ [EffectCleanup 0])) ! 0) \<and>
   \<not> hasJoined (run initial ([EffectRun room_alice 7] @ EffectCleanup 0 #
        [Environment CONNECTED [] False] @ [JoinSettled 0 Resolved])) \<and>
   publishedListeners (run initial ([EffectRun room_alice 7] @ EffectCleanup 0 #
        [Environment CONNECTED [] False] @ [JoinSettled 0 Resolved])) = 0 \<and>
   unpublishedListeners (run initial ([EffectRun room_alice 7] @ EffectCleanup 0 #
        [Environment CONNECTED [] False] @ [JoinSettled 0 Resolved])) = 0"
proof -
  have h: "0 < length (runs (run initial [EffectRun room_alice 7]))"
    by (simp add: run_def step_def tracksEffect_def effectRun_def init_def say_def initial_def)
  have b: "\<not> hasJoined (run initial ([EffectRun room_alice 7] @ EffectCleanup 0 #
        [Environment CONNECTED [] False])) \<and>
      publishedListeners (run initial ([EffectRun room_alice 7] @ EffectCleanup 0 #
        [Environment CONNECTED [] False])) = 0 \<and>
      unpublishedListeners (run initial ([EffectRun room_alice 7] @ EffectCleanup 0 #
        [Environment CONNECTED [] False])) = 0"
    by (simp add: run_def step_def tracksEffect_def effectRun_def init_def say_def initial_def
        effectCleanup_def cleanup_def)
  from cancelled_join_never_connects [OF h, of "[Environment CONNECTED [] False]" Resolved] b h
  show ?thesis by simp
qed

subsection \<open>Rejected joins\<close>

text \<open>
  Claim C10. When the join promise that \<open>init\<close> awaits rejects, the \<open>catch\<close> adds nothing
  to the trace if the error's code is \<open>'OPERATION_ABORTED'\<close>; for any other code (or none)
  it logs the error, shows the error toast \<open>Failed to connect to video call\<close> and calls
  \<open>onLeave\<close>, once each.
\<close>

theorem join_rejection_reported:
  assumes "i < length (runs s)" and "awaiting (runs s ! i)"
  shows "calls (step s (JoinSettled i (Rejected err))) =
           calls s @
           (if code err = Some ''OPERATION_ABORTED'' then []
            else [ConsoleError ''Error initializing video call:'',
                  ToastError ''Failed to connect to video call'', OnLeave])"
  using assms
  by (simp add: step_def joinSettled_def init_resumed_def say_def tracksEffect_idle)

theorem join_rejection_reported_witness:
  "0 < length (runs (run initial [EffectRun room_alice 7])) \<and>
   awaiting (runs (run initial [EffectRun room_alice 7]) ! 0) \<and>
   calls (step (run initial [EffectRun room_alice 7])
            (JoinSettled 0 (Rejected (JoinError (Some ''CAN_NOT_GET_GATEWAY_SERVER''))))) =
     [Join ''app-id'' ''room-1'' ''Alice'' 7, ConsoleError ''Error initializing video call:'',
      ToastError ''Failed to connect to video call'', OnLeave] \<and>
   calls (step (run initial [EffectRun room_alice 7])
            (JoinSettled 0 (Rejected (JoinError (Some ''OPERATION_ABORTED''))))) =
     [Join ''app-id'' ''room-1'' ''Alice'' 7]"
proof -
  have h: "0 < length (runs (run initial [EffectRun room_alice 7]))"
    and w: "awaiting (runs (run initial [EffectRun room_alice 7]) ! 0)"
    and c: "calls (run initial [EffectRun room_alice 7]) = [Join ''app-id'' ''room-1'' ''Alice'' 7]"
    by (simp_all add: model_defs room_alice_def)
  from join_rejection_reported [OF h w, of "JoinError (Some ''CAN_NOT_GET_GATEWAY_SERVER'')"]
    join_rejection_reported [OF h w, of "JoinError (Some ''OPERATION_ABORTED'')"] h w c
  show ?thesis by simp
qed

subsection \<open>The participant list\<close>

text \<open>
  Claim C8. No sequence of events puts two records with the same uid into the participant
  list: from a list with distinct uids every run ends in one. The updater of the
  \<open>'user-published'\<close> listener returns the list as it is when the uid is there already,
  and appends the user otherwise.
\<close>

theorem uids_stay_unique:
  assumes "distinct (map uid (users s))"
  shows "distinct (map uid (users (run s es))) \<and>
         distinct (map uid (addUser user (users s))) \<and>
         addUser user (users s) =
           (if uid user \<in> set (map uid (users s)) then users s else users s @ [user])"
  using assms by (simp add: distinct_run distinct_addUser addUser_eq)

theorem uids_stay_unique_witness:
  "distinct (map uid (users initial)) \<and>
   distinct (map uid (users (run initial bob_audio_and_video))) \<and>
   addUser bob_both (users initial) = [bob_both]"
proof -
  have h: "distinct (map uid (users initial))"
    by (simp add: initial_def)
  from uids_stay_unique [OF h, of bob_audio_and_video bob_both] h
  show ?thesis by (simp add: initial_def)
qed

text \<open>
  Claim C2, as stated, fails. Bob has published video and audio and is in the list; the
  transport then reports that his audio is unpublished, his video track still being
  there. The listener drops him from the list.
\<close>

theorem unpublished_keeps_other_kind_counterexample:
  "users (run initial bob_audio_and_video) = [bob_video] \<and>
   videoTrack bob_video = Some 1 \<and>
   users (run initial (bob_audio_and_video @ [UserUnpublishedEvent bob_video Audio])) = []"
  by (simp add: model_defs bob_video_def bob_audio_and_video_def bob_present_def
      bob_both_def connected_def room_alice_def)

text \<open>
  Claim C2, amended. On an unpublished event, with the listener registered, every record
  with the event's uid is removed from the participant list, whichever media kind the
  event names and whatever tracks the user still has; all other records stay, in order.
\<close>

theorem unpublished_removes_participant:
  assumes "0 < unpublishedListeners s"
  shows "users (step s (UserUnpublishedEvent user mediaType)) =
           filter (\<lambda>u. uid u \<noteq> uid user) (users s) \<and>
         uid user \<notin> set (map uid (users (step s (UserUnpublishedEvent user mediaType))))"
  using assms by (auto simp: step_def effect_fields unpublished_pow)

theorem unpublished_removes_participant_witness:
  "0 < unpublishedListeners (run initial bob_audio_and_video) \<and>
   users (step (run initial bob_audio_and_video) (UserUnpublishedEvent bob_video Audio)) = []"
proof -
  have h: "0 < unpublishedListeners (run initial bob_audio_and_video)"
    by (simp add: model_defs bob_audio_and_video_def bob_present_def bob_both_def
        connected_def room_alice_def)
  from unpublished_removes_participant [OF h, of bob_video Audio] h users_bob_audio_and_video
  show ?thesis by (simp add: bob_video_def)
qed

subsection \<open>Changing the microphone\<close>

text \<open>
  Claim C3, as stated, fails. The component is joined and connected and publishes a
  microphone track and a camera track; the user selects another microphone. The calls
  made are not one close, one unpublish, one create and one publish for audio alone: the
  camera track is closed, unpublished, created again and published again with it.
\<close>

theorem microphone_change_spares_video_counterexample:
  "localVideoTrack (run initial publishing) = Some (CameraVideoTrack ''cam-1'') \<and>
   new_calls (run initial publishing) (ChangeMicrophone ''mic-2'') =
     [Close (MicrophoneAudioTrack ''mic-1''), Close (CameraVideoTrack ''cam-1''),
      Unpublish [MicrophoneAudioTrack ''mic-1'', CameraVideoTrack ''cam-1''],
      CreateMicrophoneAudioTrack ''mic-2'', CreateCameraVideoTrack ''cam-1'',
      Publish [MicrophoneAudioTrack ''mic-2'', CameraVideoTrack ''cam-1'']]"
  unfolding publishing_state
  by (simp add: new_calls_def step_def tracksEffect_def setupTracks_def say_def
      onChangeMicrophone_def Let_def)

text \<open>
  Claim C3, amended. Selecting a microphone other than the current one, while joined and
  connected with a camera selected and both local tracks present, and with none of the
  calls failing, makes exactly these calls, in this order: close of the audio track, close
  of the video track, one unpublish naming both old tracks, creation of a microphone track
  for the new id, creation of a camera track for the selected camera, and one publish
  naming both new tracks. Both local tracks are replaced.
\<close>

theorem microphone_change_replaces_both_tracks:
  assumes "hasJoined s" and "connectionState s = CONNECTED"
    and "selectedCameraId s \<noteq> []" and "v \<noteq> []" and "v \<noteq> selectedMicId s"
    and "localAudioTrack s = Some a" and "localVideoTrack s = Some c"
    and "set [Close a, Close c, Unpublish [a, c], CreateMicrophoneAudioTrack v,
              CreateCameraVideoTrack (selectedCameraId s),
              Publish [MicrophoneAudioTrack v, CameraVideoTrack (selectedCameraId s)]]
           \<inter> set (failing s) = {}"
  shows "calls (step s (ChangeMicrophone v)) =
           calls s @
           [Close a, Close c, Unpublish [a, c], CreateMicrophoneAudioTrack v,
            CreateCameraVideoTrack (selectedCameraId s),
            Publish [MicrophoneAudioTrack v, CameraVideoTrack (selectedCameraId s)]] \<and>
         localAudioTrack (step s (ChangeMicrophone v)) = Some (MicrophoneAudioTrack v) \<and>
         localVideoTrack (step s (ChangeMicrophone v)) =
           Some (CameraVideoTrack (selectedCameraId s))"
proof -
  from assms(8) have first:
    "attempt (failing s)
       [Close a, Close c, Unpublish [a, c], CreateMicrophoneAudioTrack v,
        CreateCameraVideoTrack (selectedCameraId s)] =
     ([Close a, Close c, Unpublish [a, c], CreateMicrophoneAudioTrack v,
       CreateCameraVideoTrack (selectedCameraId s)], False)"
    by (intro attempt_ok) auto
  from assms(8) have second:
    "attempt (failing s) [Publish [MicrophoneAudioTrack v, CameraVideoTrack (selectedCameraId s)]] =
     ([Publish [MicrophoneAudioTrack v, CameraVideoTrack (selectedCameraId s)]], False)"
    by (intro attempt_ok) auto
  from assms(1-7) first second show ?thesis
    by (simp add: step_def tracksEffect_def setupTracks_def say_def onChangeMicrophone_def
        Let_def del: attempt.simps)
qed

theorem microphone_change_replaces_both_tracks_witness:
  "hasJoined (run initial publishing) \<and>
   connectionState (run initial publishing) = CONNECTED \<and>
   localAudioTrack (run initial publishing) = Some (MicrophoneAudioTrack ''mic-1'') \<and>
   localVideoTrack (run initial publishing) = Some (CameraVideoTrack ''cam-1'') \<and>
   localAudioTrack (step (run initial publishing) (ChangeMicrophone ''mic-2'')) =
     Some (MicrophoneAudioTrack ''mic-2'') \<and>
   localVideoTrack (step (run initial publishing) (ChangeMicrophone ''mic-2'')) =
     Some (CameraVideoTrack ''cam-1'')"
proof -
  have h: "hasJoined (run initial publishing)"
    "connectionState (run initial publishing) = CONNECTED"
    "selectedCameraId (run initial publishing) \<noteq> []"
    "''mic-2'' \<noteq> []"
    "''mic-2'' \<noteq> selectedMicId (run initial publishing)"
    "localAudioTrack (run initial publishing) = Some (MicrophoneAudioTrack ''mic-1'')"
    "localVideoTrack (run initial publishing) = Some (CameraVideoTrack ''cam-1'')"
    "set [Close (MicrophoneAudioTrack ''mic-1''), Close (CameraVideoTrack ''cam-1''),
          Unpublish [MicrophoneAudioTrack ''mic-1'', CameraVideoTrack ''cam-1''],
          CreateMicrophoneAudioTrack ''mic-2'',
          CreateCameraVideoTrack (selectedCameraId (run initial publishing)),
          Publish [MicrophoneAudioTrack ''mic-2'',
                   CameraVideoTrack (selectedCameraId (run initial publishing))]]
       \<inter> set (failing (run initial publishing)) = {}"
    unfolding publishing_state by simp_all
  from microphone_change_replaces_both_tracks [OF h] h
  show ?thesis by (simp add: publishing_state)
qed

subsection \<open>Joining while a session is active\<close>

text \<open>
  Claim C4, as stated, fails. A join is pending and the client reports CONNECTING; the
  join effect is run again (after the cleanup of its first run). Its \<open>init\<close> writes a
  console warning and returns: no error toast, no \<open>onLeave\<close>, and \<open>init\<close> does not go on
  to the \<open>await\<close>. Nothing reaches the caller.
\<close>

theorem second_join_reports_error_counterexample:
  "connectionState (run initial join_pending) = CONNECTING \<and>
   new_calls (run initial join_pending) (EffectRun room_two 8) =
     [ConsoleWarn ''Client already connected or connecting''] \<and>
   snd (init room_two 8 False (run initial join_pending)) = False"
  by (simp add: model_defs room_two_def join_pending_def new_calls_def room_alice_def)

text \<open>
  Claim C4, amended. Whenever the join effect runs while the client's connection state is
  not DISCONNECTED, \<open>init\<close> returns at once after a console warning: no join call or other
  transport call is made, no component state changes, and nothing is reported to the
  caller. (The state differs only by the warning in the trace and by the new effect run
  with its own, unsignalled abort controller and no pending join.)
\<close>

theorem join_while_active_only_warns:
  assumes "connectionState s \<noteq> DISCONNECTED"
  shows "step s (EffectRun cfg rnd) =
           s\<lparr>runs := runs s @ [\<lparr>aborted = False, awaiting = False,
                                 seenAudioTrack = localAudioTrack s,
                                 seenVideoTrack = localVideoTrack s\<rparr>],
             calls := calls s @ [ConsoleWarn ''Client already connected or connecting'']\<rparr>"
  using assms
  by (simp add: step_def effectRun_def init_def say_def tracksEffect_idle)

theorem join_while_active_only_warns_witness:
  "connectionState (run initial join_pending) \<noteq> DISCONNECTED \<and>
   calls (step (run initial join_pending) (EffectRun room_two 8)) =
     [Join ''app-id'' ''room-1'' ''Alice'' 7, Leave,
      ConsoleWarn ''Client already connected or connecting''] \<and>
   hasJoined (step (run initial join_pending) (EffectRun room_two 8)) = False"
proof -
  have h: "connectionState (run initial join_pending) \<noteq> DISCONNECTED"
    by (simp add: model_defs room_two_def join_pending_def room_alice_def)
  have c: "calls (run initial join_pending) = [Join ''app-id'' ''room-1'' ''Alice'' 7, Leave]"
    "hasJoined (run initial join_pending) = False"
    by (simp_all add: model_defs room_two_def join_pending_def room_alice_def)
  from join_while_active_only_warns [OF h, of room_two 8] h c
  show ?thesis by simp
qed

subsection \<open>Repeated published events\<close>

text \<open>
  Claim C5, as stated, fails. Bob is in the participant list after a published event for
  his video; the transport emits the same event again. The listener calls
  \<open>client.subscribe\<close> a second time.
\<close>

theorem second_published_is_noop_counterexample:
  "users (run initial bob_present) = [bob_video] \<and>
   new_calls (run initial bob_present) (UserPublishedEvent bob_video Video) =
     [Subscribe (UidString ''bob-42'') Video]"
  by (simp add: model_defs bob_video_def bob_present_def new_calls_def connected_def
      room_alice_def)

text \<open>
  Claim C5, amended. A published event for a uid that is already in the participant list
  makes each registered listener call the transport's subscribe for that uid and kind
  again; the participant list is the same after the event, and the same again when such a
  subscribe settles (no second record is inserted).
\<close>

theorem second_published_subscribes_again:
  assumes "uid user \<in> set (map uid (users s))"
    and "length (subscribing s) \<le> k"
    and "k < length (subscribing s) + publishedListeners s"
  shows "calls (step s (UserPublishedEvent user mediaType)) =
           calls s @ replicate (publishedListeners s) (Subscribe (uid user) mediaType) \<and>
         users (step s (UserPublishedEvent user mediaType)) = users s \<and>
         users (run s [UserPublishedEvent user mediaType, SubscribeSettled k ok]) = users s"
proof -
  define t where "t = step s (UserPublishedEvent user mediaType)"
  have t: "t = s\<lparr>calls := calls s @ replicate (publishedListeners s) (Subscribe (uid user) mediaType),
                 subscribing := subscribing s @ replicate (publishedListeners s) (user, mediaType)\<rparr>"
    by (simp add: t_def step_def published_pow tracksEffect_idle)
  from assms(2,3) have k: "k < length (subscribing t)" and e: "subscribing t ! k = (user, mediaType)"
    by (simp_all add: t nth_append)
  from assms(1) have "addUser user (users t) = users s"
    by (simp add: t addUser_eq)
  with k e have "users (step t (SubscribeSettled k ok)) = users s"
    by (simp add: step_def effect_fields subscribeSettled_def userPublished_resumed_def
        say_def Let_def t)
  then show ?thesis
    by (simp add: run_Cons run_Nil t_def [symmetric]) (simp add: t)
qed

theorem second_published_subscribes_again_witness:
  "uid bob_video \<in> set (map uid (users (run initial bob_present))) \<and>
   length (subscribing (run initial bob_present)) \<le> 0 \<and>
   0 < length (subscribing (run initial bob_present)) +
         publishedListeners (run initial bob_present) \<and>
   users (run (run initial bob_present)
            [UserPublishedEvent bob_video Video, SubscribeSettled 0 True]) = [bob_video]"
proof -
  have h: "uid bob_video \<in> set (map uid (users (run initial bob_present)))"
    "length (subscribing (run initial bob_present)) \<le> 0"
    "0 < length (subscribing (run initial bob_present)) +
         publishedListeners (run initial bob_present)"
    by (simp_all add: model_defs bob_video_def bob_present_def connected_def
        room_alice_def)
  from second_published_subscribes_again [OF h, of Video True] h users_bob_present
  show ?thesis by simp
qed

subsection \<open>Teardown\<close>

text \<open>
  Claim C6, as stated, fails. The channel changed while both local tracks existed, so the
  effect was run again and its cleanup sees the tracks; closing the audio track throws.
  The cleanup logs the failure and stops: the video track is not closed and the
  transport's leave is not called. The same failure in \<open>handleLeave\<close> ends the handler
  after the first call and leaves it as an exception.
\<close>

theorem teardown_is_total_effort_counterexample:
  "new_calls (run initial close_fails_at_cleanup) (EffectCleanup 1) =
     [Close (MicrophoneAudioTrack ''mic-1''), ConsoleWarn ''Error during cleanup:''] \<and>
   new_calls (run initial close_fails_at_leave) LeaveClicked =
     [Close (MicrophoneAudioTrack ''mic-1'')] \<and>
   snd (handleLeave (run initial close_fails_at_leave)) = True"
  unfolding close_fails_at_cleanup_state channel_changed_state close_fails_at_leave_def
    run_append publishing_state
  by (simp add: new_calls_def run_def step_def tracksEffect_def say_def effectCleanup_def
      cleanup_def handleLeave_def)

text \<open>
  Claim C6, amended. The effect cleanup closes the audio track and the video track it
  sees, in order. If a close throws, the failure is logged with a console warning at once
  and the steps after it, the transport's leave among them, are not attempted. If no close
  throws, the transport's leave is called and the cleanup waits for it; if it rejects, the
  failure is logged with a console warning when the rejection arrives, after whatever
  happened in between, and nothing is logged if it resolves. No error leaves the cleanup.
  In \<open>handleLeave\<close>, when no close throws, all steps are made (closes, leave, \<open>onLeave\<close>,
  toast) and no error leaves the handler, whether or not the transport's leave fails.
\<close>

theorem cleanup_stops_at_first_failure:
  assumes "i < length (runs s)"
    and "set (closes (localAudioTrack t) @ closes (localVideoTrack t)) \<inter> set (failing t) = {}"
    and "0 < leaving u"
  shows "calls (step s (EffectCleanup i)) =
           calls s @
           takeWhile (\<lambda>c. c \<notin> set (failing s))
             (closes (seenAudioTrack (runs s ! i)) @ closes (seenVideoTrack (runs s ! i))) @
           take 1 (dropWhile (\<lambda>c. c \<notin> set (failing s))
             (closes (seenAudioTrack (runs s ! i)) @ closes (seenVideoTrack (runs s ! i)))) @
           (if list_ex (\<lambda>c. c \<in> set (failing s))
                 (closes (seenAudioTrack (runs s ! i)) @ closes (seenVideoTrack (runs s ! i)))
            then [ConsoleWarn ''Error during cleanup:''] else [Leave]) \<and>
         leaving (step s (EffectCleanup i)) =
           (if list_ex (\<lambda>c. c \<in> set (failing s))
                 (closes (seenAudioTrack (runs s ! i)) @ closes (seenVideoTrack (runs s ! i)))
            then leaving s else Suc (leaving s)) \<and>
         calls (step u (LeaveSettled ok)) =
           calls u @ (if ok then [] else [ConsoleWarn ''Error during cleanup:'']) \<and>
         leaving (step u (LeaveSettled ok)) = leaving u - 1 \<and>
         snd (cleanup (runs s ! i) s) \<noteq> Thrown \<and>
         snd (cleanup_resumed ok u) \<noteq> Thrown \<and>
         handleLeave t =
           (say (closes (localAudioTrack t) @ closes (localVideoTrack t) @
                 [Leave, OnLeave, ToastSuccess ''Left video call'']) t, False)"
proof -
  have a: "calls (step s (EffectCleanup i)) = calls (react (EffectCleanup i) s)"
    by (simp add: step_def effectCleanup_def cleanup_def say_def tracksEffect_idle
        split: prod.splits bool.splits)
  have b: "snd (cleanup (runs s ! i) s) \<noteq> Thrown" "snd (cleanup_resumed ok u) \<noteq> Thrown"
    by (simp_all add: cleanup_def cleanup_resumed_def split: prod.splits bool.splits)
  from assms(2) have c: "handleLeave t =
           (say (closes (localAudioTrack t) @ closes (localVideoTrack t) @
                 [Leave, OnLeave, ToastSuccess ''Left video call'']) t, False)"
    by (simp add: handleLeave_def attempt_ok)
  from assms(1) have d: "calls (react (EffectCleanup i) s) =
           calls s @
           takeWhile (\<lambda>c. c \<notin> set (failing s))
             (closes (seenAudioTrack (runs s ! i)) @ closes (seenVideoTrack (runs s ! i))) @
           take 1 (dropWhile (\<lambda>c. c \<notin> set (failing s))
             (closes (seenAudioTrack (runs s ! i)) @ closes (seenVideoTrack (runs s ! i)))) @
           (if list_ex (\<lambda>c. c \<in> set (failing s))
                 (closes (seenAudioTrack (runs s ! i)) @ closes (seenVideoTrack (runs s ! i)))
            then [ConsoleWarn ''Error during cleanup:''] else [Leave])"
    by (simp add: effectCleanup_def cleanup_def say_def attempt_eq del: attempt.simps)
  from assms(1) have e: "leaving (step s (EffectCleanup i)) =
           (if list_ex (\<lambda>c. c \<in> set (failing s))
                 (closes (seenAudioTrack (runs s ! i)) @ closes (seenVideoTrack (runs s ! i)))
            then leaving s else Suc (leaving s))"
    by (simp add: step_def effect_fields effectCleanup_def cleanup_def say_def attempt_eq
        del: attempt.simps)
  from assms(3) have f: "calls (step u (LeaveSettled ok)) =
           calls u @ (if ok then [] else [ConsoleWarn ''Error during cleanup:''])"
    "leaving (step u (LeaveSettled ok)) = leaving u - 1"
    by (simp_all add: step_def leaveSettled_def cleanup_resumed_def say_def tracksEffect_idle)
  from a b c d e f show ?thesis by simp
qed

theorem cleanup_stops_at_first_failure_witness:
  "0 < length (runs (run initial publishing)) \<and>
   set (closes (localAudioTrack (run initial leave_fails)) @
        closes (localVideoTrack (run initial leave_fails))) \<inter>
     set (failing (run initial leave_fails)) = {} \<and>
   0 < leaving (run initial channel_changed) \<and>
   calls (step (run initial publishing) (EffectCleanup 0)) =
     calls (run initial publishing) @ [Leave] \<and>
   leaving (step (run initial publishing) (EffectCleanup 0)) = 1 \<and>
   calls (run initial channel_changed) =
     calls (run initial publishing) @
     [Leave, ConsoleWarn ''Client already connected or connecting''] \<and>
   calls (step (run initial channel_changed) (LeaveSettled False)) =
     calls (run initial publishing) @
     [Leave, ConsoleWarn ''Client already connected or connecting'',
      ConsoleWarn ''Error during cleanup:''] \<and>
   1 < length (runs (run initial close_fails_at_cleanup)) \<and>
   calls (step (run initial close_fails_at_cleanup) (EffectCleanup 1)) =
     calls (run initial close_fails_at_cleanup) @
     [Close (MicrophoneAudioTrack ''mic-1''), ConsoleWarn ''Error during cleanup:''] \<and>
   failing (run initial leave_fails) = [Leave] \<and>
   handleLeave (run initial leave_fails) =
     (say [Close (MicrophoneAudioTrack ''mic-1''), Close (CameraVideoTrack ''cam-1''),
           Leave, OnLeave, ToastSuccess ''Left video call''] (run initial leave_fails), False)"
proof -
  have h: "0 < length (runs (run initial publishing))"
    "set (closes (localAudioTrack (run initial leave_fails)) @
          closes (localVideoTrack (run initial leave_fails))) \<inter>
       set (failing (run initial leave_fails)) = {}"
    "0 < leaving (run initial channel_changed)"
    unfolding leave_fails_state channel_changed_state publishing_state by simp_all
  have k: "1 < length (runs (run initial close_fails_at_cleanup))"
    unfolding close_fails_at_cleanup_state channel_changed_state by simp
  have f: "failing (run initial leave_fails) = [Leave]"
    "closes (localAudioTrack (run initial leave_fails)) = [Close (MicrophoneAudioTrack ''mic-1'')]"
    "closes (localVideoTrack (run initial leave_fails)) = [Close (CameraVideoTrack ''cam-1'')]"
    unfolding leave_fails_state publishing_state by simp_all
  have c: "runs (run initial close_fails_at_cleanup) ! 1 =
      \<lparr>aborted = False, awaiting = False,
       seenAudioTrack = Some (MicrophoneAudioTrack ''mic-1''),
       seenVideoTrack = Some (CameraVideoTrack ''cam-1'')\<rparr>"
    "failing (run initial close_fails_at_cleanup) = [Close (MicrophoneAudioTrack ''mic-1'')]"
    unfolding close_fails_at_cleanup_state channel_changed_state by simp_all
  have p: "runs (run initial publishing) ! 0 =
      \<lparr>aborted = False, awaiting = False, seenAudioTrack = None, seenVideoTrack = None\<rparr>"
    "failing (run initial publishing) = []" "leaving (run initial publishing) = 0"
    unfolding publishing_state by simp_all
  have q: "calls (run initial channel_changed) =
     calls (run initial publishing) @
     [Leave, ConsoleWarn ''Client already connected or connecting'']"
    unfolding channel_changed_state publishing_state by simp
  from cleanup_stops_at_first_failure [OF h, of False]
    cleanup_stops_at_first_failure [OF k h(2) h(3), of False] h k f c p q
  show ?thesis by simp
qed

text \<open>
  Claim C7, as stated, fails. Bob is in the participant list; the user clicks Leave, and
  the effect cleanup runs after it. Bob is still in the list.
\<close>

theorem registry_empty_after_leave_counterexample:
  "users (run initial (bob_present @ [LeaveClicked])) = [bob_video] \<and>
   users (run initial (bob_present @ [LeaveClicked, EffectCleanup 0])) = [bob_video]"
  by (simp add: model_defs bob_video_def bob_present_def connected_def room_alice_def)

text \<open>
  Claim C7, amended. Neither \<open>handleLeave\<close> nor the effect cleanup touches the participant
  list: after either, it holds the same records as before.
\<close>

theorem leave_keeps_participants:
  "users (step s LeaveClicked) = users s \<and> users (step s (EffectCleanup i)) = users s"
  by (simp add: step_def effect_fields users_after_leave effectCleanup_def cleanup_def say_def
      split: prod.splits bool.splits)

theorem leave_keeps_participants_witness:
  "users (step (run initial bob_present) LeaveClicked) = [bob_video] \<and>
   users (step (run initial bob_present) (EffectCleanup 0)) = [bob_video]"
  using leave_keeps_participants [of "run initial bob_present" 0] users_bob_present
  by simp

end
